theory Spec2Isabelle
  imports Main
begin

section \<open>The editor plugin \<open>withEditable\<close>\<close>

subsection \<open>Data\<close>

text \<open>
  Points and ranges as the models package declares them: a point is a path into the
  node tree with an offset, a range is an anchor and a focus point. A text unit is the
  string the caller passes (\<open>'character'\<close>, \<open>'word'\<close>, \<open>'line'\<close>, \<open>'block'\<close>).
\<close>

type_synonym path = "nat list"

record Point =
  path :: path
  offset :: nat

record Range =
  anchor :: Point
  focus :: Point

text \<open>
  The shadow root registered for the editor (\<open>EDITOR_TO_SHADOW\<close>), of which the code
  reads \<open>activeElement\<close> only. DOM elements are identified by numbers.
\<close>

record shadow_root =
  activeElement :: "nat option"

text \<open>
  The mutable state an editor method can read and change: the document, the selection,
  the entries of the weak maps \<open>EDITOR_TO_INPUT\<close> and \<open>EDITOR_TO_SHADOW\<close> for this
  editor, and the event emitter attached to it. The document and the emitter are kept
  abstract.
\<close>

record ('d, 'em) editable =
  children :: 'd
  selection :: "Range option"
  EDITOR_TO_INPUT :: "nat option"
  EDITOR_TO_SHADOW :: "shadow_root option"
  emitter :: 'em

text \<open>
  The functions \<open>withEditable\<close> imports or wraps and whose code is not part of the
  plugin: the queries and transforms of the models package, the methods of the wrapped
  editor captured before they are overridden (\<open>deleteForward\<close>, \<open>deleteBackward\<close>),
  the event emitter and the DOM call \<open>textarea.focus\<close>. They are parameters of the model:
  every theorem below holds for each implementation of them. \<open>EventEmitter.emit\<close> gives
  the handlers it calls, in order, and the state once they have run.
\<close>

record ('d, 'em, 'n, 'h, 'a) collaborators =
  Range_isCollapsed :: "Range \<Rightarrow> bool"
  Point_equals :: "Point \<Rightarrow> Point \<Rightarrow> bool"
  Editor_nodes :: "('d, 'em) editable \<Rightarrow> ('n \<Rightarrow> bool) \<Rightarrow> ('n \<times> path) list"
  isGridCell :: "'n \<Rightarrow> bool"
  Editor_start :: "('d, 'em) editable \<Rightarrow> path \<Rightarrow> Point"
  Editor_end :: "('d, 'em) editable \<Rightarrow> path \<Rightarrow> Point"
  List_above :: "('d, 'em) editable \<Rightarrow> ('n \<times> path) option"
  Editor_isStart :: "('d, 'em) editable \<Rightarrow> Point \<Rightarrow> path \<Rightarrow> bool"
  List_unwrapList :: "('d, 'em) editable \<Rightarrow> ('d, 'em) editable"
  Editor_isBlock :: "('d, 'em) editable \<Rightarrow> 'n \<Rightarrow> bool"
  Editor_above :: "('d, 'em) editable \<Rightarrow> ('n \<Rightarrow> bool) \<Rightarrow> Range \<Rightarrow> ('n \<times> path) option"
  Editor_range :: "('d, 'em) editable \<Rightarrow> path \<Rightarrow> Point \<Rightarrow> Range"
  findCurrentLineRange :: "('d, 'em) editable \<Rightarrow> Range \<Rightarrow> Range"
  Transforms_delete :: "Range \<Rightarrow> ('d, 'em) editable \<Rightarrow> ('d, 'em) editable"
  Transforms_select :: "Point \<Rightarrow> ('d, 'em) editable \<Rightarrow> ('d, 'em) editable"
  Editable_findPath :: "('d, 'em) editable \<Rightarrow> path"
  deleteForward :: "string \<Rightarrow> ('d, 'em) editable \<Rightarrow> ('d, 'em) editable"
  deleteBackward :: "string \<Rightarrow> ('d, 'em) editable \<Rightarrow> ('d, 'em) editable"
  textarea_focus :: "nat \<Rightarrow> ('d, 'em) editable \<Rightarrow> ('d, 'em) editable"
  EventEmitter_on :: "string \<Rightarrow> 'h \<Rightarrow> bool option \<Rightarrow> ('d, 'em) editable \<Rightarrow> ('d, 'em) editable"
  EventEmitter_emit :: "string \<Rightarrow> 'a list \<Rightarrow> ('d, 'em) editable \<Rightarrow> 'h list \<times> ('d, 'em) editable"

text \<open>
  Every call of a collaborator that may change the state is recorded, in order, next to
  the state, so that "returns without invoking" is a statement about the record of calls.
  So is every call the emitter makes of a handler.
\<close>

datatype ('h, 'a) call =
    Call_deleteForward string
  | Call_deleteBackward string
  | Call_List_unwrapList
  | Call_Transforms_delete Range
  | Call_Transforms_select Point
  | Call_textarea_focus nat
  | Call_EventEmitter_on string 'h "bool option"
  | Call_EventEmitter_emit string "'a list"
  | Call_handler 'h "'a list"

record ('d, 'em, 'h, 'a) state =
  editor :: "('d, 'em) editable"
  calls :: "('h, 'a) call list"

definition invoke ::
  "('h, 'a) call \<Rightarrow> (('d, 'em) editable \<Rightarrow> ('d, 'em) editable) \<Rightarrow> ('d, 'em, 'h, 'a) state \<Rightarrow> ('d, 'em, 'h, 'a) state" where
  "invoke c f s = \<lparr>editor = f (editor s), calls = calls s @ [c]\<rparr>"

subsection \<open>\<open>e.deleteForward\<close> and \<open>e.deleteBackward\<close>\<close>

text \<open>
  \<open>const [cell] = Editor.nodes(editor, {match: n => e.isGridCell(n)})\<close>: the first
  entry the query yields, if there is one.
\<close>

definition first_cell ::
  "('d, 'em, 'n, 'h, 'a) collaborators \<Rightarrow> ('d, 'em) editable \<Rightarrow> ('n \<times> path) option" where
  "first_cell m ed = (case Editor_nodes m ed (isGridCell m) of [] \<Rightarrow> None | c # _ \<Rightarrow> Some c)"

text \<open>
  The guarded block at the head of \<open>e.deleteForward\<close>: \<open>True\<close> when it reaches the
  \<open>return\<close>.
\<close>

definition deleteForward_returns ::
  "('d, 'em, 'n, 'h, 'a) collaborators \<Rightarrow> ('d, 'em) editable \<Rightarrow> bool" where
  "deleteForward_returns m ed =
     (case selection ed of
        None \<Rightarrow> False
      | Some sel \<Rightarrow>
          if Range_isCollapsed m sel then
            (case first_cell m ed of
               None \<Rightarrow> False
             | Some (n, cellPath) \<Rightarrow> Point_equals m (anchor sel) (Editor_end m ed cellPath))
          else False)"

definition e_deleteForward ::
  "('d, 'em, 'n, 'h, 'a) collaborators \<Rightarrow> string \<Rightarrow> ('d, 'em, 'h, 'a) state \<Rightarrow> ('d, 'em, 'h, 'a) state" where
  "e_deleteForward m unit s =
     (if deleteForward_returns m (editor s) then s
      else invoke (Call_deleteForward unit) (deleteForward m unit) s)"

text \<open>
  The guarded block at the head of \<open>e.deleteBackward\<close>: \<open>Some s'\<close> when it returns,
  with the state it leaves, \<open>None\<close> when control falls through to the rest.
\<close>

definition deleteBackward_head ::
  "('d, 'em, 'n, 'h, 'a) collaborators \<Rightarrow> ('d, 'em, 'h, 'a) state \<Rightarrow> ('d, 'em, 'h, 'a) state option" where
  "deleteBackward_head m s =
     (case selection (editor s) of
        None \<Rightarrow> None
      | Some sel \<Rightarrow>
          if Range_isCollapsed m sel then
            (if (case first_cell m (editor s) of
                   None \<Rightarrow> False
                 | Some (n, cellPath) \<Rightarrow>
                     Point_equals m (anchor sel) (Editor_start m (editor s) cellPath))
             then Some s
             else
               (case List_above m (editor s) of
                  None \<Rightarrow> None
                | Some (l, listPath) \<Rightarrow>
                    if Editor_isStart m (editor s) (focus sel) listPath
                    then Some (invoke Call_List_unwrapList (List_unwrapList m) s)
                    else None))
          else None)"

text \<open>The branch of \<open>e.deleteBackward\<close> for the unit \<open>'line'\<close>.\<close>

definition deleteBackward_line ::
  "('d, 'em, 'n, 'h, 'a) collaborators \<Rightarrow> ('d, 'em, 'h, 'a) state \<Rightarrow> ('d, 'em, 'h, 'a) state" where
  "deleteBackward_line m s =
     (case selection (editor s) of
        None \<Rightarrow> s
      | Some sel \<Rightarrow>
          if Range_isCollapsed m sel then
            (case Editor_above m (editor s) (Editor_isBlock m (editor s)) sel of
               None \<Rightarrow> s
             | Some (b, parentBlockPath) \<Rightarrow>
                 (let parentElementRange = Editor_range m (editor s) parentBlockPath (anchor sel);
                      currentLineRange = findCurrentLineRange m (editor s) parentElementRange
                  in if \<not> Range_isCollapsed m currentLineRange
                     then invoke (Call_Transforms_delete currentLineRange)
                            (Transforms_delete m currentLineRange) s
                     else s))
          else s)"

definition e_deleteBackward ::
  "('d, 'em, 'n, 'h, 'a) collaborators \<Rightarrow> string \<Rightarrow> ('d, 'em, 'h, 'a) state \<Rightarrow> ('d, 'em, 'h, 'a) state" where
  "e_deleteBackward m unit s =
     (case deleteBackward_head m s of
        Some s' \<Rightarrow> s'
      | None \<Rightarrow>
          if unit \<noteq> ''line'' then invoke (Call_deleteBackward unit) (deleteBackward m unit) s
          else deleteBackward_line m s)"

subsection \<open>\<open>e.on\<close>, \<open>e.once\<close> and \<open>e.emit\<close>\<close>

text \<open>
  Both methods have the same body, \<open>EventEmitter.on(e, type, handler, prepend)\<close>. The
  argument \<open>prepend\<close> is optional, so it may be absent.
\<close>

definition e_on ::
  "('d, 'em, 'n, 'h, 'a) collaborators \<Rightarrow> string \<Rightarrow> 'h \<Rightarrow> bool option \<Rightarrow>
   ('d, 'em, 'h, 'a) state \<Rightarrow> ('d, 'em, 'h, 'a) state" where
  "e_on m type handler prepend s =
     invoke (Call_EventEmitter_on type handler prepend) (EventEmitter_on m type handler prepend) s"

definition e_once ::
  "('d, 'em, 'n, 'h, 'a) collaborators \<Rightarrow> string \<Rightarrow> 'h \<Rightarrow> bool option \<Rightarrow>
   ('d, 'em, 'h, 'a) state \<Rightarrow> ('d, 'em, 'h, 'a) state" where
  "e_once m type handler prepend s =
     invoke (Call_EventEmitter_on type handler prepend) (EventEmitter_on m type handler prepend) s"

text \<open>
  \<open>e.emit(type, ...args)\<close> is \<open>EventEmitter.emit(e, type, ...args)\<close>: the emitter calls
  the handlers it holds for the type with the arguments.
\<close>

definition e_emit ::
  "('d, 'em, 'n, 'h, 'a) collaborators \<Rightarrow> string \<Rightarrow> 'a list \<Rightarrow>
   ('d, 'em, 'h, 'a) state \<Rightarrow> ('d, 'em, 'h, 'a) state" where
  "e_emit m type args s =
     (case EventEmitter_emit m type args (editor s) of
        (fired, ed) \<Rightarrow>
          \<lparr>editor = ed,
           calls = calls s @ Call_EventEmitter_emit type args
                     # map (\<lambda>handler. Call_handler handler args) fired\<rparr>)"

text \<open>The calls recorded between a state and a later one.\<close>

definition new_calls :: "('d, 'em, 'h, 'a) state \<Rightarrow> ('d, 'em, 'h, 'a) state \<Rightarrow> ('h, 'a) call list" where
  "new_calls s s' = drop (length (calls s)) (calls s')"

text \<open>A sequence of emits, each given by its type and arguments.\<close>

fun emit_all ::
  "('d, 'em, 'n, 'h, 'a) collaborators \<Rightarrow> (string \<times> 'a list) list \<Rightarrow>
   ('d, 'em, 'h, 'a) state \<Rightarrow> ('d, 'em, 'h, 'a) state" where
  "emit_all m [] s = s"
| "emit_all m ((t, args) # ems) s = emit_all m ems (e_emit m t args s)"

text \<open>
  The handler is called by every emit of \<open>type\<close> in a sequence of emits that starts in
  the state \<open>s\<close>.
\<close>

fun fires_on_every_emit ::
  "('d, 'em, 'n, 'h, 'a) collaborators \<Rightarrow> string \<Rightarrow> 'h \<Rightarrow> (string \<times> 'a list) list \<Rightarrow>
   ('d, 'em, 'h, 'a) state \<Rightarrow> bool" where
  "fires_on_every_emit m type handler [] s = True"
| "fires_on_every_emit m type handler ((t, args) # ems) s =
     ((if t = type then Call_handler handler args \<in> set (new_calls s (e_emit m t args s))
       else True)
      \<and> fires_on_every_emit m type handler ems (e_emit m t args s))"

text \<open>
  A lasting subscription: whatever the state and the emits that follow, a handler
  registered by \<open>EventEmitter.on\<close> is called by every emit of its type.
\<close>

definition lasting_on :: "('d, 'em, 'n, 'h, 'a) collaborators \<Rightarrow> bool" where
  "lasting_on m =
     (\<forall>type handler prepend ed cs ems.
        fires_on_every_emit m type handler ems
          \<lparr>editor = EventEmitter_on m type handler prepend ed, calls = cs\<rparr>)"

subsection \<open>\<open>e.focus\<close>\<close>

text \<open>
  \<open>Transforms.select(e, point)\<close>, recorded as a call.
\<close>

definition select_point ::
  "('d, 'em, 'n, 'h, 'a) collaborators \<Rightarrow> Point \<Rightarrow> ('d, 'em, 'h, 'a) state \<Rightarrow> ('d, 'em, 'h, 'a) state" where
  "select_point m point s = invoke (Call_Transforms_select point) (Transforms_select m point) s"

text \<open>
  The first statement of \<open>e.focus\<close>, the chain of \<open>if\<close>s that chooses a point to
  select. The argument \<open>start\<close> is an optional boolean: \<open>None\<close> is \<open>undefined\<close>, which
  is falsy and is neither \<open>=== true\<close> nor \<open>=== false\<close>.
\<close>

definition focus_select ::
  "('d, 'em, 'n, 'h, 'a) collaborators \<Rightarrow> bool option \<Rightarrow> ('d, 'em, 'h, 'a) state \<Rightarrow> ('d, 'em, 'h, 'a) state" where
  "focus_select m start s =
     (case selection (editor s) of
        None \<Rightarrow>
          (let p = Editable_findPath m (editor s);
               point = (if start = Some True then Editor_start m (editor s) p
                        else Editor_end m (editor s) p)
           in select_point m point s)
      | Some sel \<Rightarrow>
          if start = Some True then
            (let p = Editable_findPath m (editor s)
             in select_point m (Editor_start m (editor s) p) s)
          else if start = Some False then
            (let p = Editable_findPath m (editor s)
             in select_point m (Editor_start m (editor s) p) s)
          else s)"

text \<open>
  The second statement: the textarea takes the DOM focus unless it already is the
  shadow root's active element.
\<close>

definition focus_textarea ::
  "('d, 'em, 'n, 'h, 'a) collaborators \<Rightarrow> ('d, 'em, 'h, 'a) state \<Rightarrow> ('d, 'em, 'h, 'a) state" where
  "focus_textarea m s =
     (case EDITOR_TO_INPUT (editor s) of
        None \<Rightarrow> s
      | Some textarea \<Rightarrow>
          (case EDITOR_TO_SHADOW (editor s) of
             None \<Rightarrow> s
           | Some shadow \<Rightarrow>
               if activeElement shadow \<noteq> Some textarea
               then invoke (Call_textarea_focus textarea) (textarea_focus m textarea) s
               else s))"

definition e_focus ::
  "('d, 'em, 'n, 'h, 'a) collaborators \<Rightarrow> bool option \<Rightarrow> ('d, 'em, 'h, 'a) state \<Rightarrow> ('d, 'em, 'h, 'a) state" where
  "e_focus m start s = focus_textarea m (focus_select m start s)"

text \<open>The points handed to \<open>Transforms.select\<close> in a record of calls, in order.\<close>

fun selected_points :: "('h, 'a) call list \<Rightarrow> Point list" where
  "selected_points [] = []"
| "selected_points (Call_Transforms_select p # cs) = p # selected_points cs"
| "selected_points (c # cs) = selected_points cs"

subsection \<open>A small editor to run the methods on\<close>

text \<open>
  A document that is one row of grid cells, each holding a text; the path \<open>[i]\<close> names
  cell \<open>i\<close>. The wrapped \<open>deleteForward\<close> removes the character after the anchor and,
  at the end of a cell, joins the next cell to it; the wrapped \<open>deleteBackward\<close> removes
  the character before the anchor and, at the start of a cell, joins the cell to the one
  before. The emitter is the list of the registered (type, handler) pairs.
\<close>

type_synonym row = "(string list, (string \<times> nat) list) editable"

definition cell_text :: "row \<Rightarrow> nat \<Rightarrow> string" where
  "cell_text ed i = (if i < length (children ed) then children ed ! i else [])"

definition row_nodes :: "row \<Rightarrow> (nat \<Rightarrow> bool) \<Rightarrow> (nat \<times> path) list" where
  "row_nodes ed match =
     (case selection ed of
        None \<Rightarrow> []
      | Some sel \<Rightarrow>
          (case path (anchor sel) of
             [i] \<Rightarrow> if i < length (children ed) \<and> match i then [(i, [i])] else []
           | _ \<Rightarrow> []))"

definition row_start :: "row \<Rightarrow> path \<Rightarrow> Point" where
  "row_start ed p =
     (case p of
        [] \<Rightarrow> \<lparr>path = [0], offset = 0\<rparr>
      | _ \<Rightarrow> \<lparr>path = p, offset = 0\<rparr>)"

definition row_end :: "row \<Rightarrow> path \<Rightarrow> Point" where
  "row_end ed p =
     (case p of
        [] \<Rightarrow> \<lparr>path = [length (children ed) - 1],
                offset = length (cell_text ed (length (children ed) - 1))\<rparr>
      | i # _ \<Rightarrow> \<lparr>path = p, offset = length (cell_text ed i)\<rparr>)"

definition row_deleteForward :: "string \<Rightarrow> row \<Rightarrow> row" where
  "row_deleteForward unit ed =
     (case selection ed of
        None \<Rightarrow> ed
      | Some sel \<Rightarrow>
          (case path (anchor sel) of
             [i] \<Rightarrow>
               (let t = cell_text ed i; k = offset (anchor sel)
                in if k < length t
                   then ed\<lparr>children := (children ed)[i := take k t @ drop (Suc k) t]\<rparr>
                   else if Suc i < length (children ed)
                   then ed\<lparr>children := take i (children ed) @ [t @ cell_text ed (Suc i)]
                                           @ drop (Suc (Suc i)) (children ed)\<rparr>
                   else ed)
           | _ \<Rightarrow> ed))"

definition row_deleteBackward :: "string \<Rightarrow> row \<Rightarrow> row" where
  "row_deleteBackward unit ed =
     (case selection ed of
        None \<Rightarrow> ed
      | Some sel \<Rightarrow>
          (case path (anchor sel) of
             [i] \<Rightarrow>
               (let t = cell_text ed i; k = offset (anchor sel)
                in if 0 < k
                   then ed\<lparr>children := (children ed)[i := take (k - 1) t @ drop k t],
                           selection := Some \<lparr>anchor = \<lparr>path = [i], offset = k - 1\<rparr>,
                                              focus = \<lparr>path = [i], offset = k - 1\<rparr>\<rparr>\<rparr>
                   else if 0 < i \<and> i < length (children ed)
                   then ed\<lparr>children := take (i - 1) (children ed) @ [cell_text ed (i - 1) @ t]
                                           @ drop (Suc i) (children ed),
                           selection := Some \<lparr>anchor = \<lparr>path = [i - 1], offset = length (cell_text ed (i - 1))\<rparr>,
                                              focus = \<lparr>path = [i - 1], offset = length (cell_text ed (i - 1))\<rparr>\<rparr>\<rparr>
                   else ed)
           | _ \<Rightarrow> ed))"

definition row_on :: "string \<Rightarrow> nat \<Rightarrow> bool option \<Rightarrow> row \<Rightarrow> row" where
  "row_on type handler prepend ed =
     (if prepend = Some True then ed\<lparr>emitter := (type, handler) # emitter ed\<rparr>
      else ed\<lparr>emitter := emitter ed @ [(type, handler)]\<rparr>)"

text \<open>
  An emit of \<open>type\<close> calls the handlers registered for it, in order, and leaves the
  list of listeners as it is.
\<close>

definition row_fired :: "string \<Rightarrow> row \<Rightarrow> nat list" where
  "row_fired type ed = map snd (filter (\<lambda>l. fst l = type) (emitter ed))"

definition row_emit :: "string \<Rightarrow> string list \<Rightarrow> row \<Rightarrow> nat list \<times> row" where
  "row_emit type args ed = (row_fired type ed, ed)"

text \<open>
  A one-shot emit, for contrast: it calls the handlers registered for the type and
  removes them.
\<close>

definition row_emit_once :: "string \<Rightarrow> string list \<Rightarrow> row \<Rightarrow> nat list \<times> row" where
  "row_emit_once type args ed =
     (row_fired type ed, ed\<lparr>emitter := filter (\<lambda>l. fst l \<noteq> type) (emitter ed)\<rparr>)"

definition row_editor ::
  "(string list, (string \<times> nat) list, nat, nat, string) collaborators" where
  "row_editor =
     \<lparr>Range_isCollapsed = (\<lambda>r. anchor r = focus r),
      Point_equals = (\<lambda>p q. p = q),
      Editor_nodes = row_nodes,
      isGridCell = (\<lambda>n. True),
      Editor_start = row_start,
      Editor_end = row_end,
      List_above = (\<lambda>ed. None),
      Editor_isStart = (\<lambda>ed p l. p = row_start ed l),
      List_unwrapList = (\<lambda>ed. ed),
      Editor_isBlock = (\<lambda>ed n. True),
      Editor_above = (\<lambda>ed match r. None),
      Editor_range = (\<lambda>ed p q. \<lparr>anchor = row_start ed p, focus = q\<rparr>),
      findCurrentLineRange = (\<lambda>ed r. r),
      Transforms_delete = (\<lambda>r ed. ed),
      Transforms_select = (\<lambda>p ed. ed\<lparr>selection := Some \<lparr>anchor = p, focus = p\<rparr>\<rparr>),
      Editable_findPath = (\<lambda>ed. []),
      deleteForward = row_deleteForward,
      deleteBackward = row_deleteBackward,
      textarea_focus = (\<lambda>t ed. ed\<lparr>EDITOR_TO_SHADOW := Some \<lparr>activeElement = Some t\<rparr>\<rparr>),
      EventEmitter_on = row_on,
      EventEmitter_emit = row_emit\<rparr>"

definition caret :: "nat \<Rightarrow> nat \<Rightarrow> Range" where
  "caret i k = \<lparr>anchor = \<lparr>path = [i], offset = k\<rparr>, focus = \<lparr>path = [i], offset = k\<rparr>\<rparr>"

definition row_state ::
  "Range option \<Rightarrow> (string list, (string \<times> nat) list, nat, string) state" where
  "row_state sel =
     \<lparr>editor = \<lparr>children = [''ab'', ''cd''], selection = sel, EDITOR_TO_INPUT = Some 7,
                EDITOR_TO_SHADOW = Some \<lparr>activeElement = None\<rparr>, emitter = []\<rparr>,
      calls = []\<rparr>"

section \<open>The synchronisation server\<close>

text \<open>
  The sources hold the manifest of the package \<open>yjs-websocket\<close> only; the registry and
  the persistence path below follow the specification's description of them.
\<close>

text \<open>
  Modelled from the spec: the error taxonomy of the server (section 7), which no source
  file declares.
\<close>

datatype error =
    MALFORMED_MESSAGE
  | CORRUPT_UPDATE
  | HANDSHAKE_TIMEOUT
  | AUTH_ERROR
  | PERSISTENCE_FAILURE
  | ROOM_NOT_FOUND

subsection \<open>Awareness registry\<close>

text \<open>
  Modelled from the spec: the awareness entry, which no source file declares. The spec:
  "per-client ephemeral key-value state [...] plus a monotonically increasing clock and a
  last-seen timestamp"; the state of a removed client is the "removed" tombstone. The
  registry maps a client id to its entry.
\<close>

datatype 'st presence = Present 'st | Removed

record 'st awareness_entry =
  clock :: nat
  presence :: "'st presence"
  last_seen :: nat

type_synonym 'st awareness = "nat \<rightharpoonup> 'st awareness_entry"

text \<open>
  Modelled from the spec: the Awareness Registry's \<open>set(clientId, clock, state)\<close>, whose
  code is not among the sources. The spec: "applied only if \<open>clock\<close> is strictly greater
  than the stored clock for \<open>clientId\<close>; otherwise ignored (no error -- stale updates are
  expected under concurrent broadcast)". A client without an entry has no stored clock,
  so its first update is applied. The time of the call, which an applied update stores
  as the entry's last-seen timestamp, is the argument \<open>now\<close>.
\<close>

definition awareness_set ::
  "nat \<Rightarrow> nat \<Rightarrow> nat \<Rightarrow> 'st presence \<Rightarrow> 'st awareness \<Rightarrow> error + 'st awareness" where
  "awareness_set now clientId clk st reg =
     (case reg clientId of
        None \<Rightarrow> Inr (reg(clientId \<mapsto> \<lparr>clock = clk, presence = st, last_seen = now\<rparr>))
      | Some e \<Rightarrow>
          if clock e < clk
          then Inr (reg(clientId \<mapsto> \<lparr>clock = clk, presence = st, last_seen = now\<rparr>))
          else Inr reg)"

text \<open>The state the registry stores for a client, if it stores one.\<close>

definition stored_state :: "'st awareness \<Rightarrow> nat \<Rightarrow> 'st presence option" where
  "stored_state reg clientId = map_option presence (reg clientId)"

text \<open>An update is stale when the client has an entry whose clock it does not exceed.\<close>

definition stale :: "'st awareness \<Rightarrow> nat \<Rightarrow> nat \<Rightarrow> bool" where
  "stale reg clientId clk = (case reg clientId of None \<Rightarrow> False | Some e \<Rightarrow> clk \<le> clock e)"

subsection \<open>Persistence adapter and flush\<close>

text \<open>
  Modelled from the spec: the durable store behind the Persistence Adapter, whose code is
  not among the sources. It maps a room key to the bytes last written for it. A transient
  fault is the number of coming write attempts that fail. The spec: "\<open>store\<close> must be safe
  to retry -- a failed write must not corrupt previously durable state".
\<close>

record 'b adapter =
  durable :: "string \<rightharpoonup> 'b"
  failures_left :: nat

text \<open>
  Modelled from the spec: \<open>store(roomKey, bytes) -> ok | error\<close> of the Persistence
  Adapter, whose code is not among the sources. While the fault lasts an attempt fails
  and leaves the durable bytes alone; after it, an attempt replaces the bytes of the room.
\<close>

definition store :: "string \<Rightarrow> 'b \<Rightarrow> 'b adapter \<Rightarrow> (error + unit) \<times> 'b adapter" where
  "store roomKey bytes a =
     (if 0 < failures_left a
      then (Inl PERSISTENCE_FAILURE, a\<lparr>failures_left := failures_left a - 1\<rparr>)
      else (Inr (), a\<lparr>durable := (durable a)(roomKey \<mapsto> bytes)\<rparr>))"

text \<open>
  Modelled from the spec: the configuration of the retries, "a bounded number of
  attempts" and the first delay of the backoff, which no source file declares.
\<close>

record persistence_config =
  max_attempts :: nat
  base_delay :: nat

text \<open>
  Modelled from the spec: the failure policy of \<open>store\<close>, whose code is not among the
  sources. The spec: "a failed \<open>store\<close> is retried with exponential backoff up to a
  bounded number of attempts". The first argument is the number of attempts left, the
  second the delay before the next retry; the result carries the delays waited.
\<close>

fun store_retry ::
  "nat \<Rightarrow> nat \<Rightarrow> string \<Rightarrow> 'b \<Rightarrow> 'b adapter \<Rightarrow> (error + unit) \<times> nat list \<times> 'b adapter" where
  "store_retry 0 delay roomKey bytes a = (Inl PERSISTENCE_FAILURE, [], a)"
| "store_retry (Suc n) delay roomKey bytes a =
     (case store roomKey bytes a of
        (Inr u, a') \<Rightarrow> (Inr u, [], a')
      | (Inl e, a') \<Rightarrow>
          if n = 0 then (Inl e, [], a')
          else (case store_retry n (2 * delay) roomKey bytes a' of
                  (r, ds, a'') \<Rightarrow> (r, delay # ds, a'')))"

text \<open>
  Modelled from the spec: a room, which no source file declares, as far as persistence
  goes: its key, its in-memory document (opaque), whether it has changes not yet written,
  and what was reported to the observability sink.
\<close>

record 'doc room =
  room_key :: string
  doc :: 'doc
  dirty :: bool
  sink :: "error list"

text \<open>
  Modelled from the spec: a mutation of the room's document, whose code is not among the
  sources. Merging is the CRDT library's business and is the parameter \<open>merge\<close>; the
  room records that there is something to persist.
\<close>

definition room_merge :: "('u \<Rightarrow> 'doc \<Rightarrow> 'doc) \<Rightarrow> 'u \<Rightarrow> 'doc room \<Rightarrow> 'doc room" where
  "room_merge merge u r = r\<lparr>doc := merge u (doc r), dirty := True\<rparr>"

text \<open>
  Modelled from the spec: one scheduled flush, whose code is not among the sources. The
  spec: the flush writes "the room's current full encoded state"; "if all attempts fail,
  the in-memory document is NOT discarded (clients keep working), the failure is reported
  to an observability sink, and the next scheduled flush retries from current (possibly
  further advanced) state". The encoder \<open>encodeFull\<close> is the CRDT library's.
\<close>

definition flush ::
  "('doc \<Rightarrow> 'b) \<Rightarrow> persistence_config \<Rightarrow> 'doc room \<times> 'b adapter \<Rightarrow> 'doc room \<times> 'b adapter" where
  "flush encodeFull cfg ra =
     (case ra of (r, a) \<Rightarrow>
        (case store_retry (max_attempts cfg) (base_delay cfg) (room_key r) (encodeFull (doc r)) a of
           (Inr u, ds, a') \<Rightarrow> (r\<lparr>dirty := False\<rparr>, a')
         | (Inl e, ds, a') \<Rightarrow> (r\<lparr>sink := sink r @ [e]\<rparr>, a')))"

text \<open>
  Modelled from the spec: what happens to a room over time, one event after the other
  (rooms are serialised): an update is merged, or a scheduled flush comes due.
\<close>

datatype 'u event = Mutate 'u | Flush

fun step ::
  "('doc \<Rightarrow> 'b) \<Rightarrow> ('u \<Rightarrow> 'doc \<Rightarrow> 'doc) \<Rightarrow> persistence_config \<Rightarrow> 'u event \<Rightarrow>
   'doc room \<times> 'b adapter \<Rightarrow> 'doc room \<times> 'b adapter" where
  "step encodeFull merge cfg (Mutate u) ra = (room_merge merge u (fst ra), snd ra)"
| "step encodeFull merge cfg Flush ra = flush encodeFull cfg ra"

fun run ::
  "('doc \<Rightarrow> 'b) \<Rightarrow> ('u \<Rightarrow> 'doc \<Rightarrow> 'doc) \<Rightarrow> persistence_config \<Rightarrow> 'u event list \<Rightarrow>
   'doc room \<times> 'b adapter \<Rightarrow> 'doc room \<times> 'b adapter" where
  "run encodeFull merge cfg [] ra = ra"
| "run encodeFull merge cfg (ev # evs) ra =
     run encodeFull merge cfg evs (step encodeFull merge cfg ev ra)"

text \<open>The updates of a schedule, merged in order into a document.\<close>

fun merged :: "('u \<Rightarrow> 'doc \<Rightarrow> 'doc) \<Rightarrow> 'u event list \<Rightarrow> 'doc \<Rightarrow> 'doc" where
  "merged merge [] d = d"
| "merged merge (Mutate u # evs) d = merged merge evs (merge u d)"
| "merged merge (Flush # evs) d = merged merge evs d"

text \<open>
  The scenario of the specification: the store fails twice, then succeeds; every flush
  makes at most two attempts.
\<close>

definition scenario_config :: persistence_config where
  "scenario_config = \<lparr>max_attempts = 2, base_delay = 100\<rparr>"

definition scenario_room :: "string room" where
  "scenario_room = \<lparr>room_key = ''doc1'', doc = ''a'', dirty = True, sink = []\<rparr>"

definition scenario_adapter :: "string adapter" where
  "scenario_adapter = \<lparr>durable = Map.empty, failures_left = 2\<rparr>"

definition append_update :: "string \<Rightarrow> string \<Rightarrow> string" where
  "append_update u d = d @ u"

subsection \<open>Debounce and flush scheduler\<close>

text \<open>
  Modelled from the spec: the configuration of the scheduler, which no source file
  declares: the idle interval ("a short idle timer") and the maximum-wait interval.
\<close>

record scheduler_config =
  idle_wait :: nat
  max_wait :: nat

text \<open>
  Modelled from the spec: the scheduler state of a room, which no source file declares.
  Time is the reading of an injected clock, a number. A running timer is the time at
  which it fires. The state says whether a write is in flight and whether a trailing
  flush is due when it completes; it keeps the times at which writes began and the times
  of the firings that a write in flight suppressed.
\<close>

record scheduler =
  idle_timer :: "nat option"
  max_timer :: "nat option"
  in_flight :: bool
  trailing :: bool
  writes :: "nat list"
  suppressed :: "nat list"

definition idle_scheduler :: scheduler where
  "idle_scheduler =
     \<lparr>idle_timer = None, max_timer = None, in_flight = False, trailing = False,
      writes = [], suppressed = []\<rparr>"

text \<open>
  Modelled from the spec: the beginning of "one persistence write of the room's current
  full encoded state", at time \<open>t\<close>; the scheduler's code is not among the sources.
\<close>

definition start_write :: "nat \<Rightarrow> scheduler \<Rightarrow> scheduler" where
  "start_write t s = s\<lparr>in_flight := True, writes := writes s @ [t]\<rparr>"

text \<open>The time at which the first of the running timers fires.\<close>

definition due :: "scheduler \<Rightarrow> nat option" where
  "due s =
     (case idle_timer s of
        None \<Rightarrow> max_timer s
      | Some i \<Rightarrow> (case max_timer s of None \<Rightarrow> Some i | Some x \<Rightarrow> Some (min i x)))"

text \<open>
  Modelled from the spec: a timer fires at time \<open>d\<close>; the code is not among the sources.
  The spec: "Whichever timer fires first triggers exactly one persistence write", so
  the other timer is stopped; "a write already in flight suppresses a duplicate
  concurrent write, but a trailing flush is scheduled once the in-flight write
  completes".
\<close>

definition fire :: "nat \<Rightarrow> scheduler \<Rightarrow> scheduler" where
  "fire d s =
     (if in_flight s
      then s\<lparr>idle_timer := None, max_timer := None, trailing := True,
             suppressed := suppressed s @ [d]\<rparr>
      else start_write d (s\<lparr>idle_timer := None, max_timer := None\<rparr>))"

text \<open>
  Modelled from the spec: the clock reaches \<open>t\<close>; a timer due by then has fired. After
  a firing no timer is running, so at most one fires.
\<close>

definition advance :: "nat \<Rightarrow> scheduler \<Rightarrow> scheduler" where
  "advance t s = (case due s of None \<Rightarrow> s | Some d \<Rightarrow> if d \<le> t then fire d s else s)"

text \<open>
  Modelled from the spec: an applied, non-empty update at time \<open>t\<close>; the code is not
  among the sources. The spec: "on every applied, non-empty update, reset a short idle
  timer [...] and, independently, ensure a maximum-wait timer is running".
\<close>

definition on_update :: "scheduler_config \<Rightarrow> nat \<Rightarrow> scheduler \<Rightarrow> scheduler" where
  "on_update cfg t s =
     (let s' = advance t s
      in s'\<lparr>idle_timer := Some (t + idle_wait cfg),
            max_timer := (case max_timer s' of
                            None \<Rightarrow> Some (t + max_wait cfg)
                          | Some d \<Rightarrow> Some d)\<rparr>)"

text \<open>
  Modelled from the spec: the write in flight completes at time \<open>t\<close>; the code is not
  among the sources. The spec: "a trailing flush is scheduled once the in-flight write
  completes if further mutations occurred meanwhile"; the trailing flush is the write
  that a firing during the flight would have triggered, and it begins at once.
\<close>

definition on_completed :: "nat \<Rightarrow> scheduler \<Rightarrow> scheduler" where
  "on_completed t s =
     (let s' = advance t s
      in if in_flight s'
         then (if trailing s' then start_write t (s'\<lparr>trailing := False\<rparr>)
               else s'\<lparr>in_flight := False\<rparr>)
         else s')"

text \<open>
  Modelled from the spec: what happens to the scheduler of a room, each event with the
  clock reading at which it happens: an update is applied, the write in flight
  completes, or the clock is read and nothing else happens.
\<close>

datatype sched_event = Applied nat | Completed nat | Tick nat

fun time_of :: "sched_event \<Rightarrow> nat" where
  "time_of (Applied t) = t"
| "time_of (Completed t) = t"
| "time_of (Tick t) = t"

fun sched_step :: "scheduler_config \<Rightarrow> sched_event \<Rightarrow> scheduler \<Rightarrow> scheduler" where
  "sched_step cfg (Applied t) s = on_update cfg t s"
| "sched_step cfg (Completed t) s = on_completed t s"
| "sched_step cfg (Tick t) s = advance t s"

fun sched_run :: "scheduler_config \<Rightarrow> sched_event list \<Rightarrow> scheduler \<Rightarrow> scheduler" where
  "sched_run cfg [] s = s"
| "sched_run cfg (ev # evs) s = sched_run cfg evs (sched_step cfg ev s)"





text \<open>A trailing flush is only ever due after a firing was suppressed.\<close>

definition settled :: "scheduler \<Rightarrow> bool" where
  "settled s = (trailing s \<longrightarrow> suppressed s \<noteq> [])"


text \<open>
  An idle interval of 3 and a maximum wait of 10, and a stream of updates two apart in
  which every write completes one tick after it began.
\<close>

definition debounce_config :: scheduler_config where
  "debounce_config = \<lparr>idle_wait = 3, max_wait = 10\<rparr>"



section \<open>Properties of the editor plugin\<close>

text \<open>
  C8. Deletion never crosses a grid-cell boundary. Let the selection be collapsed and let
  the query for grid cells yield a cell first. If the selection's anchor equals the end
  point of that cell, \<open>e.deleteForward(unit)\<close> returns the state as it found it: the
  document and the selection are unchanged and no call is recorded, so the wrapped
  \<open>deleteForward\<close> was not invoked. If the anchor equals the start point of that cell,
  the same holds of \<open>e.deleteBackward(unit)\<close> and the wrapped \<open>deleteBackward\<close>. Both
  hold for every unit and for every implementation of the collaborators.
\<close>

theorem delete_stops_at_cell_boundary:
  "(selection (editor s) = Some sel \<and> Range_isCollapsed m sel \<and>
    first_cell m (editor s) = Some (n, cellPath) \<and>
    Point_equals m (anchor sel) (Editor_end m (editor s) cellPath)
      \<longrightarrow> e_deleteForward m unit s = s) \<and>
   (selection (editor s) = Some sel \<and> Range_isCollapsed m sel \<and>
    first_cell m (editor s) = Some (n, cellPath) \<and>
    Point_equals m (anchor sel) (Editor_start m (editor s) cellPath)
      \<longrightarrow> e_deleteBackward m unit s = s)"
  by (simp add: e_deleteForward_def deleteForward_returns_def e_deleteBackward_def
      deleteBackward_head_def)

text \<open>
  In the row \<open>ab | cd\<close>: with the caret at the end of the first cell \<open>e.deleteForward\<close>
  changes nothing, and with the caret at the start of the second cell neither does
  \<open>e.deleteBackward\<close>.
\<close>

theorem delete_stops_at_cell_boundary_witness:
  "selection (editor (row_state (Some (caret 0 2)))) = Some (caret 0 2) \<and>
   Range_isCollapsed row_editor (caret 0 2) \<and>
   first_cell row_editor (editor (row_state (Some (caret 0 2)))) = Some (0, [0]) \<and>
   Point_equals row_editor (anchor (caret 0 2))
     (Editor_end row_editor (editor (row_state (Some (caret 0 2)))) [0]) \<and>
   e_deleteForward row_editor ''character'' (row_state (Some (caret 0 2)))
     = row_state (Some (caret 0 2)) \<and>
   selection (editor (row_state (Some (caret 1 0)))) = Some (caret 1 0) \<and>
   Range_isCollapsed row_editor (caret 1 0) \<and>
   first_cell row_editor (editor (row_state (Some (caret 1 0)))) = Some (1, [1]) \<and>
   Point_equals row_editor (anchor (caret 1 0))
     (Editor_start row_editor (editor (row_state (Some (caret 1 0)))) [1]) \<and>
   e_deleteBackward row_editor ''line'' (row_state (Some (caret 1 0)))
     = row_state (Some (caret 1 0))"
  using delete_stops_at_cell_boundary
          [of "row_state (Some (caret 0 2))" "caret 0 2" row_editor 0 "[0]" "''character''"]
        delete_stops_at_cell_boundary
          [of "row_state (Some (caret 1 0))" "caret 1 0" row_editor 1 "[1]" "''line''"]
  by (simp add: row_state_def caret_def row_editor_def first_cell_def row_nodes_def
      row_start_def row_end_def cell_text_def)

text \<open>
  What the guard prevents: called at those two places, the wrapped methods of the row
  editor join the two cells.
\<close>

lemma wrapped_delete_joins_cells:
  "children (deleteForward row_editor ''character'' (editor (row_state (Some (caret 0 2)))))
     = [''abcd'']"
  "children (deleteBackward row_editor ''character'' (editor (row_state (Some (caret 1 0)))))
     = [''abcd'']"
  by (simp_all add: row_state_def caret_def row_editor_def row_deleteForward_def
      row_deleteBackward_def cell_text_def)

text \<open>
  Away from the boundary \<open>e.deleteForward\<close> does invoke the wrapped method, once, with
  the unit it was given.
\<close>

lemma deleteForward_inside_cell:
  "e_deleteForward row_editor ''character'' (row_state (Some (caret 0 1))) =
     \<lparr>editor = (editor (row_state (Some (caret 0 1))))\<lparr>children := [''a'', ''cd'']\<rparr>,
      calls = [Call_deleteForward ''character'']\<rparr>"
  by (simp add: e_deleteForward_def deleteForward_returns_def first_cell_def invoke_def
      row_state_def caret_def row_editor_def row_nodes_def row_end_def cell_text_def
      row_deleteForward_def)

text \<open>What \<open>e.focus\<close> does, by cases on the selection, and the points it selects.\<close>

lemma selected_points_append:
  "selected_points (xs @ ys) = selected_points xs @ selected_points ys"
  by (induction xs rule: selected_points.induct) simp_all

lemma focus_textarea_calls:
  "\<exists>r. calls (focus_textarea m s) = calls s @ r \<and> selected_points r = []"
  by (simp add: focus_textarea_def invoke_def split: option.splits)

lemma selected_focus_textarea:
  assumes "calls s' = calls s @ r"
  shows "selected_points (new_calls s (focus_textarea m s')) = selected_points r"
proof -
  obtain r' where r': "calls (focus_textarea m s') = calls s' @ r'" "selected_points r' = []"
    using focus_textarea_calls by blast
  with assms show ?thesis by (simp add: new_calls_def selected_points_append)
qed

lemma e_focus_selection:
  "selection (editor s) = Some sel \<Longrightarrow>
     e_focus m start s =
       (if start = None then focus_textarea m s
        else focus_textarea m
          (invoke (Call_Transforms_select (Editor_start m (editor s) (Editable_findPath m (editor s))))
             (Transforms_select m (Editor_start m (editor s) (Editable_findPath m (editor s)))) s))"
  by (cases start) (simp_all add: e_focus_def focus_select_def select_point_def Let_def)

lemma e_focus_no_selection:
  "selection (editor s) = None \<Longrightarrow>
     e_focus m start s =
       focus_textarea m
         (invoke (Call_Transforms_select
                    ((if start = Some True then Editor_start m else Editor_end m)
                       (editor s) (Editable_findPath m (editor s))))
            (Transforms_select m
                    ((if start = Some True then Editor_start m else Editor_end m)
                       (editor s) (Editable_findPath m (editor s)))) s)"
  by (simp add: e_focus_def focus_select_def select_point_def Let_def)

lemma selected_invoke:
  "selected_points (new_calls s (focus_textarea m (invoke (Call_Transforms_select p) f s))) = [p]"
  by (simp add: selected_focus_textarea[where r = "[Call_Transforms_select p]"] invoke_def)

lemma selected_none:
  "selected_points (new_calls s (focus_textarea m s)) = []"
  by (simp add: selected_focus_textarea[where r = "[]"])

text \<open>
  C9. \<open>e.once\<close> is \<open>e.on\<close>: for every event type, handler and prepend flag it leaves the
  same state, having made the one call \<open>EventEmitter.on(e, type, handler, prepend)\<close> and
  nothing else. So every sequence of emits that follows runs the same after \<open>e.once\<close> as
  after \<open>e.on\<close>, and the handler stays subscribed: whenever a handler registered by
  \<open>EventEmitter.on\<close> is called by every emit of its type in a sequence of emits, so is the
  handler registered by \<open>e.once\<close>, at the first emit and at each later one. In
  particular, with every emitter whose \<open>on\<close> is a lasting subscription, the handler
  registered by \<open>e.once\<close> fires on every subsequent emit of its type.
\<close>

theorem once_registers_like_on:
  "e_once m type handler prepend s = e_on m type handler prepend s \<and>
   e_once m type handler prepend s =
     \<lparr>editor = EventEmitter_on m type handler prepend (editor s),
      calls = calls s @ [Call_EventEmitter_on type handler prepend]\<rparr> \<and>
   emit_all m ems (e_once m type handler prepend s)
     = emit_all m ems (e_on m type handler prepend s) \<and>
   (fires_on_every_emit m type handler ems
        \<lparr>editor = EventEmitter_on m type handler prepend (editor s),
         calls = calls s @ [Call_EventEmitter_on type handler prepend]\<rparr>
      \<longrightarrow> fires_on_every_emit m type handler ems (e_once m type handler prepend s)) \<and>
   (lasting_on m \<longrightarrow> fires_on_every_emit m type handler ems (e_once m type handler prepend s))"
  by (simp add: e_once_def e_on_def invoke_def lasting_on_def)

text \<open>
  An emitter that keeps its listeners in a list and removes none when it emits is a
  lasting subscription.
\<close>

lemma row_fired_on:
  "handler \<in> set (row_fired type (row_on type handler prepend ed))"
  by (auto simp add: row_fired_def row_on_def image_iff)

lemma row_listener_fires:
  "handler \<in> set (row_fired type (editor s)) \<Longrightarrow>
     fires_on_every_emit row_editor type handler ems s"
proof (induction ems arbitrary: s)
  case Nil
  then show ?case by simp
next
  case (Cons em ems)
  obtain t args where em: "em = (t, args)" by (cases em)
  have ed: "editor (e_emit row_editor t args s) = editor s"
    by (simp add: e_emit_def row_editor_def row_emit_def)
  have "Call_handler handler args \<in> set (new_calls s (e_emit row_editor type args s))"
    using Cons.prems by (simp add: e_emit_def new_calls_def row_editor_def row_emit_def)
  moreover have "fires_on_every_emit row_editor type handler ems (e_emit row_editor t args s)"
    using Cons.prems ed by (intro Cons.IH) simp
  ultimately show ?case using em by simp
qed

lemma row_once_fires_on_every_emit:
  "fires_on_every_emit row_editor type handler ems (e_once row_editor type handler prepend s)"
  by (rule row_listener_fires) (simp add: e_once_def invoke_def row_editor_def row_fired_on)

lemma row_lasting_on: "lasting_on row_editor"
  unfolding lasting_on_def
  by (intro allI row_listener_fires) (simp add: row_editor_def row_fired_on)

text \<open>
  With an emitter that keeps its listeners in a list and removes none when it emits:
  a handler registered by \<open>e.once\<close> for \<open>'change'\<close> is called by the first emit of
  \<open>'change'\<close> and again by the second.
\<close>

theorem once_registers_like_on_witness:
  "lasting_on row_editor \<and>
   fires_on_every_emit row_editor ''change'' 5
      [(''change'', [''a'']), (''blur'', []), (''change'', [''b''])]
      \<lparr>editor = EventEmitter_on row_editor ''change'' 5 None (editor (row_state None)),
       calls = calls (row_state None) @ [Call_EventEmitter_on ''change'' 5 None]\<rparr> \<and>
   fires_on_every_emit row_editor ''change'' 5
      [(''change'', [''a'']), (''blur'', []), (''change'', [''b''])]
      (e_once row_editor ''change'' 5 None (row_state None)) \<and>
   calls (emit_all row_editor [(''change'', [''a'']), (''blur'', []), (''change'', [''b''])]
      (e_once row_editor ''change'' 5 None (row_state None)))
     = [Call_EventEmitter_on ''change'' 5 None,
        Call_EventEmitter_emit ''change'' [''a''], Call_handler 5 [''a''],
        Call_EventEmitter_emit ''blur'' [],
        Call_EventEmitter_emit ''change'' [''b''], Call_handler 5 [''b'']]"
proof -
  have registered:
    "fires_on_every_emit row_editor ''change'' 5
       [(''change'', [''a'']), (''blur'', []), (''change'', [''b''])]
       \<lparr>editor = EventEmitter_on row_editor ''change'' 5 None (editor (row_state None)),
        calls = calls (row_state None) @ [Call_EventEmitter_on ''change'' 5 None]\<rparr>"
    by (simp add: e_emit_def new_calls_def row_editor_def row_on_def row_emit_def row_fired_def
        row_state_def)
  note fires =
    once_registers_like_on
      [of row_editor "''change''" 5 None "row_state None"
          "[(''change'', [''a'']), (''blur'', []), (''change'', [''b''])]",
       THEN conjunct2, THEN conjunct2, THEN conjunct2, THEN conjunct1, rule_format,
       OF registered]
  note lasting =
    once_registers_like_on
      [of row_editor "''change''" 5 None "row_state None"
          "[(''change'', [''a'']), (''blur'', []), (''change'', [''b''])]",
       THEN conjunct2, THEN conjunct2, THEN conjunct2, THEN conjunct2, rule_format,
       OF row_lasting_on]
  have recorded:
    "calls (emit_all row_editor [(''change'', [''a'']), (''blur'', []), (''change'', [''b''])]
       (e_once row_editor ''change'' 5 None (row_state None)))
     = [Call_EventEmitter_on ''change'' 5 None,
        Call_EventEmitter_emit ''change'' [''a''], Call_handler 5 [''a''],
        Call_EventEmitter_emit ''blur'' [],
        Call_EventEmitter_emit ''change'' [''b''], Call_handler 5 [''b'']]"
    by (simp add: e_once_def e_emit_def invoke_def row_editor_def row_on_def row_emit_def
        row_fired_def row_state_def)
  from row_lasting_on registered fires lasting recorded show ?thesis by blast
qed

text \<open>
  With a one-shot emit the registration by \<open>EventEmitter.on\<close> does not last, and the
  handler registered by \<open>e.once\<close> is called by the first emit only: what \<open>e.once\<close>
  registers lasts exactly as long as what \<open>EventEmitter.on\<close> registers.
\<close>

lemma one_shot_fires_once:
  "calls (emit_all (row_editor\<lparr>EventEmitter_emit := row_emit_once\<rparr>)
            [(''change'', [''a'']), (''change'', [''b''])]
            (e_once (row_editor\<lparr>EventEmitter_emit := row_emit_once\<rparr>) ''change'' 5 None
               (row_state None)))
     = [Call_EventEmitter_on ''change'' 5 None,
        Call_EventEmitter_emit ''change'' [''a''], Call_handler 5 [''a''],
        Call_EventEmitter_emit ''change'' [''b'']]"
  "\<not> lasting_on (row_editor\<lparr>EventEmitter_emit := row_emit_once\<rparr>)"
proof -
  let ?m = "row_editor\<lparr>EventEmitter_emit := row_emit_once\<rparr>"
  show "calls (emit_all ?m [(''change'', [''a'']), (''change'', [''b''])]
            (e_once ?m ''change'' 5 None (row_state None)))
     = [Call_EventEmitter_on ''change'' 5 None,
        Call_EventEmitter_emit ''change'' [''a''], Call_handler 5 [''a''],
        Call_EventEmitter_emit ''change'' [''b'']]"
    by (simp add: e_once_def e_emit_def invoke_def row_editor_def row_on_def row_emit_once_def
        row_fired_def row_state_def)
  have "\<not> fires_on_every_emit ?m ''change'' (5::nat) [(''change'', [''a'']), (''change'', [''b''])]
          \<lparr>editor = EventEmitter_on ?m ''change'' 5 None (editor (row_state None)), calls = []\<rparr>"
    by (simp add: e_emit_def new_calls_def row_editor_def row_on_def row_emit_once_def
        row_fired_def row_state_def)
  then show "\<not> lasting_on ?m" unfolding lasting_on_def by blast
qed

text \<open>
  C10. When the editor has a selection, \<open>e.focus(false)\<close> does what \<open>e.focus(true)\<close>
  does: it makes one call of \<open>Transforms.select\<close>, with the start of the editor and not
  with its end, and then sees to the textarea (\<open>e.focus()\<close> selects nothing). When the
  editor has no selection, \<open>e.focus(true)\<close> selects the start of the editor,
  \<open>e.focus(false)\<close> and \<open>e.focus()\<close> its end.
\<close>

theorem focus_false_selects_start:
  "(selection (editor s) \<noteq> None \<longrightarrow>
      e_focus m (Some False) s = e_focus m (Some True) s \<and>
      e_focus m (Some False) s =
        focus_textarea m
          \<lparr>editor = Transforms_select m
                      (Editor_start m (editor s) (Editable_findPath m (editor s))) (editor s),
           calls = calls s @ [Call_Transforms_select
                      (Editor_start m (editor s) (Editable_findPath m (editor s)))]\<rparr> \<and>
      selected_points (new_calls s (e_focus m (Some False) s))
        = [Editor_start m (editor s) (Editable_findPath m (editor s))] \<and>
      e_focus m None s = focus_textarea m s \<and>
      selected_points (new_calls s (e_focus m None s)) = []) \<and>
   (selection (editor s) = None \<longrightarrow>
      e_focus m (Some True) s =
        focus_textarea m
          \<lparr>editor = Transforms_select m
                      (Editor_start m (editor s) (Editable_findPath m (editor s))) (editor s),
           calls = calls s @ [Call_Transforms_select
                      (Editor_start m (editor s) (Editable_findPath m (editor s)))]\<rparr> \<and>
      e_focus m (Some False) s =
        focus_textarea m
          \<lparr>editor = Transforms_select m
                      (Editor_end m (editor s) (Editable_findPath m (editor s))) (editor s),
           calls = calls s @ [Call_Transforms_select
                      (Editor_end m (editor s) (Editable_findPath m (editor s)))]\<rparr> \<and>
      e_focus m None s = e_focus m (Some False) s \<and>
      selected_points (new_calls s (e_focus m (Some True) s))
        = [Editor_start m (editor s) (Editable_findPath m (editor s))] \<and>
      selected_points (new_calls s (e_focus m (Some False) s))
        = [Editor_end m (editor s) (Editable_findPath m (editor s))] \<and>
      selected_points (new_calls s (e_focus m None s))
        = [Editor_end m (editor s) (Editable_findPath m (editor s))])"
proof (intro conjI impI)
  assume "selection (editor s) \<noteq> None"
  then obtain sel where sel: "selection (editor s) = Some sel" by auto
  show "e_focus m (Some False) s = e_focus m (Some True) s"
    by (simp add: e_focus_selection[OF sel])
  show "selected_points (new_calls s (e_focus m (Some False) s))
        = [Editor_start m (editor s) (Editable_findPath m (editor s))]"
    by (simp add: e_focus_selection[OF sel] selected_invoke)
  show "e_focus m (Some False) s =
        focus_textarea m
          \<lparr>editor = Transforms_select m
                      (Editor_start m (editor s) (Editable_findPath m (editor s))) (editor s),
           calls = calls s @ [Call_Transforms_select
                      (Editor_start m (editor s) (Editable_findPath m (editor s)))]\<rparr>"
    by (simp add: e_focus_selection[OF sel] invoke_def)
  show "e_focus m None s = focus_textarea m s"
    by (simp add: e_focus_selection[OF sel])
  show "selected_points (new_calls s (e_focus m None s)) = []"
    by (simp add: e_focus_selection[OF sel] selected_none)
next
  assume none: "selection (editor s) = None"
  show "e_focus m (Some True) s =
        focus_textarea m
          \<lparr>editor = Transforms_select m
                      (Editor_start m (editor s) (Editable_findPath m (editor s))) (editor s),
           calls = calls s @ [Call_Transforms_select
                      (Editor_start m (editor s) (Editable_findPath m (editor s)))]\<rparr>"
    by (simp add: e_focus_no_selection[OF none] invoke_def)
  show "e_focus m (Some False) s =
        focus_textarea m
          \<lparr>editor = Transforms_select m
                      (Editor_end m (editor s) (Editable_findPath m (editor s))) (editor s),
           calls = calls s @ [Call_Transforms_select
                      (Editor_end m (editor s) (Editable_findPath m (editor s)))]\<rparr>"
    by (simp add: e_focus_no_selection[OF none] invoke_def)
  show "e_focus m None s = e_focus m (Some False) s"
    by (simp add: e_focus_no_selection[OF none])
  show "selected_points (new_calls s (e_focus m (Some True) s))
        = [Editor_start m (editor s) (Editable_findPath m (editor s))]"
    by (simp add: e_focus_no_selection[OF none] selected_invoke)
  show "selected_points (new_calls s (e_focus m (Some False) s))
        = [Editor_end m (editor s) (Editable_findPath m (editor s))]"
    by (simp add: e_focus_no_selection[OF none] selected_invoke)
  show "selected_points (new_calls s (e_focus m None s))
        = [Editor_end m (editor s) (Editable_findPath m (editor s))]"
    by (simp add: e_focus_no_selection[OF none] selected_invoke)
qed

text \<open>
  In the row \<open>ab | cd\<close>, whose start is offset 0 of cell 0 and whose end is offset 2 of
  cell 1: with the caret in the second cell \<open>e.focus(false)\<close> selects the start;
  without a selection \<open>e.focus(false)\<close> selects the end.
\<close>

theorem focus_false_selects_start_witness:
  "selection (editor (row_state (Some (caret 1 1)))) \<noteq> None \<and>
   e_focus row_editor (Some False) (row_state (Some (caret 1 1)))
     = e_focus row_editor (Some True) (row_state (Some (caret 1 1))) \<and>
   selected_points (new_calls (row_state (Some (caret 1 1)))
       (e_focus row_editor (Some False) (row_state (Some (caret 1 1)))))
     = [\<lparr>path = [0], offset = 0\<rparr>] \<and>
   selected_points (new_calls (row_state (Some (caret 1 1)))
       (e_focus row_editor None (row_state (Some (caret 1 1))))) = [] \<and>
   selection (editor (row_state None)) = None \<and>
   selected_points (new_calls (row_state None) (e_focus row_editor (Some True) (row_state None)))
     = [\<lparr>path = [0], offset = 0\<rparr>] \<and>
   selected_points (new_calls (row_state None) (e_focus row_editor (Some False) (row_state None)))
     = [\<lparr>path = [1], offset = 2\<rparr>] \<and>
   selected_points (new_calls (row_state None) (e_focus row_editor None (row_state None)))
     = [\<lparr>path = [1], offset = 2\<rparr>]"
proof -
  have sel: "selection (editor (row_state (Some (caret 1 1)))) \<noteq> None"
    and none: "selection (editor (row_state None)) = None"
    by (simp_all add: row_state_def)
  have start: "Editor_start row_editor (editor (row_state r))
                 (Editable_findPath row_editor (editor (row_state r))) = \<lparr>path = [0], offset = 0\<rparr>"
    and "end": "Editor_end row_editor (editor (row_state r))
                 (Editable_findPath row_editor (editor (row_state r))) = \<lparr>path = [1], offset = 2\<rparr>"
    for r
    by (simp_all add: row_editor_def row_state_def row_start_def row_end_def cell_text_def)
  note with_selection =
    focus_false_selects_start [of "row_state (Some (caret 1 1))" row_editor,
      THEN conjunct1, rule_format, OF sel, unfolded start]
  note without_selection =
    focus_false_selects_start [of "row_state None" row_editor,
      THEN conjunct2, rule_format, OF none, unfolded start "end"]
  from with_selection without_selection sel none show ?thesis by blast
qed

text \<open>The whole state \<open>e.focus(false)\<close> leaves when the caret was in the second cell.\<close>

lemma focus_false_with_selection:
  "e_focus row_editor (Some False) (row_state (Some (caret 1 1))) =
     \<lparr>editor = \<lparr>children = [''ab'', ''cd''], selection = Some (caret 0 0),
                EDITOR_TO_INPUT = Some 7,
                EDITOR_TO_SHADOW = Some \<lparr>activeElement = Some 7\<rparr>, emitter = []\<rparr>,
      calls = [Call_Transforms_select \<lparr>path = [0], offset = 0\<rparr>, Call_textarea_focus 7]\<rparr>"
  by (simp add: e_focus_def focus_select_def select_point_def focus_textarea_def invoke_def
      row_state_def caret_def row_editor_def row_start_def)

section \<open>Properties of the awareness registry\<close>

text \<open>
  C3. \<open>set(clientId, clock, state)\<close> is applied only when \<open>clock\<close> is strictly greater
  than the clock stored for the client: a stale call returns the registry as it was,
  without error, and any other call stores the new entry. Hence, for clocks
  \<open>c2 \<le> c1\<close>, \<open>set(c, c2, Y)\<close> after \<open>set(c, c1, X)\<close> returns without error and changes
  nothing; and when the first call was not itself stale, the state stored for \<open>c\<close>
  after both calls is \<open>X\<close>.
\<close>

theorem awareness_set_monotone:
  "(stale reg c clk \<longrightarrow> awareness_set now c clk st reg = Inr reg) \<and>
   (\<not> stale reg c clk \<longrightarrow>
      awareness_set now c clk st reg
        = Inr (reg(c \<mapsto> \<lparr>clock = clk, presence = st, last_seen = now\<rparr>))) \<and>
   (c2 \<le> c1 \<longrightarrow>
      (\<exists>reg1. awareness_set t1 c c1 X reg = Inr reg1 \<and>
              awareness_set t2 c c2 Y reg1 = Inr reg1 \<and>
              (\<not> stale reg c c1 \<longrightarrow> stored_state reg1 c = Some X)))"
  by (auto simp add: awareness_set_def stale_def stored_state_def split: option.splits)

text \<open>
  The specification's example, on a registry that does not know the client:
  \<open>set(c1, 5, X)\<close> then \<open>set(c1, 3, Y)\<close> leaves \<open>X\<close>. And on the registry the first call
  leaves, the second call is stale.
\<close>

theorem awareness_set_monotone_witness:
  "(3::nat) \<le> 5 \<and> \<not> stale (Map.empty :: string awareness) 1 5 \<and>
   (\<exists>reg1. awareness_set 10 1 5 (Present ''X'') Map.empty = Inr reg1 \<and>
           awareness_set 11 1 3 (Present ''Y'') reg1 = Inr reg1 \<and>
           stored_state reg1 1 = Some (Present ''X'')) \<and>
   stale [1 \<mapsto> \<lparr>clock = 5, presence = Present ''X'', last_seen = 10\<rparr>] 1 3 \<and>
   awareness_set 11 1 3 (Present ''Y'')
       [1 \<mapsto> \<lparr>clock = 5, presence = Present ''X'', last_seen = 10\<rparr>]
     = Inr [1 \<mapsto> \<lparr>clock = 5, presence = Present ''X'', last_seen = 10\<rparr>]"
  using awareness_set_monotone
          [of "Map.empty :: string awareness" 1 5 10 "Present ''X''" 3 5 10 "Present ''X''" 11
              "Present ''Y''"]
        awareness_set_monotone
          [of "[1 \<mapsto> \<lparr>clock = 5, presence = Present ''X'', last_seen = 10\<rparr>]" 1 3 11
              "Present ''Y''" 3 5 10 "Present ''X''" 11 "Present ''Y''"]
  by (simp add: stale_def stored_state_def)

section \<open>Properties of the persistence path\<close>

lemma store_durable:
  "durable (snd (store k b a)) = (if 0 < failures_left a then durable a else (durable a)(k \<mapsto> b))"
  by (simp add: store_def)

lemma store_failures:
  "failures_left (snd (store k b a)) = failures_left a - 1"
  by (simp add: store_def)

lemma store_retry_Suc:
  "store_retry (Suc n) d k b a =
     (if 0 < failures_left a
      then (if n = 0 then (Inl PERSISTENCE_FAILURE, [], snd (store k b a))
            else (fst (store_retry n (2 * d) k b (snd (store k b a))),
                  d # fst (snd (store_retry n (2 * d) k b (snd (store k b a)))),
                  snd (snd (store_retry n (2 * d) k b (snd (store k b a))))))
      else (Inr (), [], snd (store k b a)))"
  by (simp add: store_def split: prod.splits)

lemma store_retry_ok:
  "failures_left a < n \<Longrightarrow>
     fst (store_retry n d k b a) = Inr () \<and>
     durable (snd (snd (store_retry n d k b a))) = (durable a)(k \<mapsto> b) \<and>
     failures_left (snd (snd (store_retry n d k b a))) = 0"
proof (induction n arbitrary: d a)
  case 0
  then show ?case by simp
next
  case (Suc n)
  show ?case
  proof (cases "0 < failures_left a")
    case False
    then show ?thesis
      by (simp add: store_retry_Suc store_durable store_failures del: store_retry.simps)
  next
    case True
    with Suc.prems have less: "failures_left (snd (store k b a)) < n"
      by (simp add: store_failures)
    then have "n \<noteq> 0" by simp
    have "durable (snd (store k b a)) = durable a"
      using True by (simp add: store_durable)
    with Suc.IH[OF less, of "2 * d"] True \<open>n \<noteq> 0\<close> show ?thesis
      by (simp add: store_retry_Suc del: store_retry.simps)
  qed
qed

lemma store_retry_fail:
  "n \<le> failures_left a \<Longrightarrow>
     fst (store_retry n d k b a) = Inl PERSISTENCE_FAILURE \<and>
     durable (snd (snd (store_retry n d k b a))) = durable a \<and>
     failures_left (snd (snd (store_retry n d k b a))) = failures_left a - n"
proof (induction n arbitrary: d a)
  case 0
  then show ?case by simp
next
  case (Suc n)
  then have pos: "0 < failures_left a" by simp
  with Suc.prems have le: "n \<le> failures_left (snd (store k b a))"
    by (simp add: store_failures)
  have dur: "durable (snd (store k b a)) = durable a"
    using pos by (simp add: store_durable)
  show ?case
  proof (cases "n = 0")
    case True
    with pos dur show ?thesis
      by (simp add: store_retry_Suc store_failures del: store_retry.simps)
  next
    case False
    with Suc.IH[OF le, of "2 * d"] pos dur show ?thesis
      by (simp add: store_retry_Suc store_failures del: store_retry.simps)
  qed
qed

lemma flush_room:
  "fst (flush enc cfg (r, a)) =
     (if failures_left a < max_attempts cfg then r\<lparr>dirty := False\<rparr>
      else r\<lparr>sink := sink r @ [PERSISTENCE_FAILURE]\<rparr>)"
proof (cases "failures_left a < max_attempts cfg")
  case True
  from store_retry_ok[OF True, of "base_delay cfg" "room_key r" "enc (doc r)"] True
  show ?thesis by (auto simp add: flush_def split: prod.splits sum.splits)
next
  case False
  then have "max_attempts cfg \<le> failures_left a" by simp
  from store_retry_fail[OF this, of "base_delay cfg" "room_key r" "enc (doc r)"] False
  show ?thesis by (auto simp add: flush_def split: prod.splits sum.splits)
qed

lemma flush_adapter:
  "snd (flush enc cfg (r, a)) =
     snd (snd (store_retry (max_attempts cfg) (base_delay cfg) (room_key r) (enc (doc r)) a))"
  by (simp add: flush_def split: prod.splits sum.splits)

lemma flush_durable:
  "durable (snd (flush enc cfg (r, a))) =
     (if failures_left a < max_attempts cfg then (durable a)(room_key r \<mapsto> enc (doc r))
      else durable a)"
  using store_retry_ok[of a "max_attempts cfg" "base_delay cfg" "room_key r" "enc (doc r)"]
        store_retry_fail[of "max_attempts cfg" a "base_delay cfg" "room_key r" "enc (doc r)"]
  by (simp add: flush_adapter)

lemma flush_failures:
  "failures_left (snd (flush enc cfg (r, a))) = failures_left a - max_attempts cfg"
  using store_retry_ok[of a "max_attempts cfg" "base_delay cfg" "room_key r" "enc (doc r)"]
        store_retry_fail[of "max_attempts cfg" a "base_delay cfg" "room_key r" "enc (doc r)"]
  by (cases "failures_left a < max_attempts cfg") (simp_all add: flush_adapter)

lemma step_room:
  "doc (fst (step enc mg cfg ev ra)) = merged mg [ev] (doc (fst ra)) \<and>
   room_key (fst (step enc mg cfg ev ra)) = room_key (fst ra)"
  by (cases ev; cases ra) (simp_all add: room_merge_def flush_room)

lemma run_room:
  "doc (fst (run enc mg cfg evs ra)) = merged mg evs (doc (fst ra)) \<and>
   room_key (fst (run enc mg cfg evs ra)) = room_key (fst ra)"
proof (induction evs arbitrary: ra)
  case Nil
  then show ?case by simp
next
  case (Cons ev evs)
  show ?case using Cons.IH[of "step enc mg cfg ev ra"] step_room[of enc mg cfg ev ra]
    by (cases ev) simp_all
qed

lemma run_append: "run enc mg cfg (xs @ ys) ra = run enc mg cfg ys (run enc mg cfg xs ra)"
  by (induction xs arbitrary: ra) simp_all

lemma step_failures:
  "failures_left (snd (step enc mg cfg ev ra)) =
     failures_left (snd ra) - (if ev = Flush then max_attempts cfg else 0)"
  by (cases ev; cases ra) (simp_all add: flush_failures)

lemma run_failures:
  "failures_left (snd (run enc mg cfg evs ra)) =
     failures_left (snd ra) - count_list evs Flush * max_attempts cfg"
proof (induction evs arbitrary: ra)
  case Nil
  then show ?case by simp
next
  case (Cons ev evs)
  show ?case using Cons.IH[of "step enc mg cfg ev ra"] step_failures[of enc mg cfg ev ra]
    by simp
qed

lemma final_flush_stores:
  assumes "failures_left (snd (run enc mg cfg evs (r, a))) < max_attempts cfg"
  shows "durable (snd (run enc mg cfg (evs @ [Flush]) (r, a))) (room_key r)
           = Some (enc (merged mg evs (doc r))) \<and>
         doc (fst (run enc mg cfg (evs @ [Flush]) (r, a))) = merged mg evs (doc r)"
proof -
  obtain r' a' where ra': "run enc mg cfg evs (r, a) = (r', a')" by (cases "run enc mg cfg evs (r, a)")
  from run_room[of enc mg cfg evs "(r, a)"] ra'
  have "doc r' = merged mg evs (doc r)" "room_key r' = room_key r" by simp_all
  with assms ra' show ?thesis by (simp add: run_append flush_durable flush_room)
qed

lemma enough_flushes:
  assumes "0 < max_attempts cfg" "failures_left a div max_attempts cfg \<le> count_list evs Flush"
  shows "failures_left (snd (run enc mg cfg evs (r, a))) < max_attempts cfg"
proof -
  have "failures_left a < (count_list evs Flush + 1) * max_attempts cfg"
    using assms
    by (metis Suc_eq_plus1 div_less_iff_less_mult le_imp_less_Suc mult.commute)
  then have "failures_left a - count_list evs Flush * max_attempts cfg < max_attempts cfg"
    using assms(1) by (simp add: algebra_simps less_diff_conv2)
  then show ?thesis by (simp add: run_failures)
qed


text \<open>
  C6. A flush never touches the in-memory document. If every attempt of a flush fails,
  the durable bytes are what they were, the failure is reported to the sink, nothing else
  in the room changes, and the room still merges the next update. And no update is
  lost: take any sequence of updates and flushes over a store whose fault lasts finitely
  many attempts; once enough flushes have come due for the fault to be used up, the next
  flush stores the encoding of the document with every update of the sequence merged,
  which is the document at the time of that write.
\<close>

theorem transient_store_failure_loses_no_update:
  "doc (fst (flush enc cfg (r, a))) = doc r \<and>
   (max_attempts cfg \<le> failures_left a \<longrightarrow>
      fst (flush enc cfg (r, a)) = r\<lparr>sink := sink r @ [PERSISTENCE_FAILURE]\<rparr> \<and>
      durable (snd (flush enc cfg (r, a))) = durable a \<and>
      doc (room_merge mg u (fst (flush enc cfg (r, a)))) = mg u (doc r)) \<and>
   (0 < max_attempts cfg \<and> failures_left a div max_attempts cfg \<le> count_list evs Flush \<longrightarrow>
      doc (fst (run enc mg cfg (evs @ [Flush]) (r, a))) = merged mg evs (doc r) \<and>
      durable (snd (run enc mg cfg (evs @ [Flush]) (r, a))) (room_key r)
        = Some (enc (merged mg evs (doc r))))"
proof (intro conjI impI)
  show "doc (fst (flush enc cfg (r, a))) = doc r"
    by (simp add: flush_room)
next
  assume "max_attempts cfg \<le> failures_left a"
  then have nl: "\<not> failures_left a < max_attempts cfg" by simp
  from nl show "fst (flush enc cfg (r, a)) = r\<lparr>sink := sink r @ [PERSISTENCE_FAILURE]\<rparr>"
    by (simp add: flush_room)
  from nl show "durable (snd (flush enc cfg (r, a))) = durable a"
    by (simp add: flush_durable)
  show "doc (room_merge mg u (fst (flush enc cfg (r, a)))) = mg u (doc r)"
    by (simp add: flush_room room_merge_def)
next
  assume h: "0 < max_attempts cfg \<and> failures_left a div max_attempts cfg \<le> count_list evs Flush"
  then have over: "failures_left (snd (run enc mg cfg evs (r, a))) < max_attempts cfg"
    by (simp add: enough_flushes)
  from final_flush_stores[OF over]
  show "doc (fst (run enc mg cfg (evs @ [Flush]) (r, a))) = merged mg evs (doc r)"
    and "durable (snd (run enc mg cfg (evs @ [Flush]) (r, a))) (room_key r)
        = Some (enc (merged mg evs (doc r)))"
    by simp_all
qed

text \<open>
  The scenario: two attempts per flush, a store that fails twice. The first flush fails
  and leaves the store empty; an update arrives; the second flush stores the document
  with that update.
\<close>

theorem transient_store_failure_loses_no_update_witness:
  "max_attempts scenario_config \<le> failures_left scenario_adapter \<and>
   fst (flush id scenario_config (scenario_room, scenario_adapter))
     = scenario_room\<lparr>sink := [PERSISTENCE_FAILURE]\<rparr> \<and>
   durable (snd (flush id scenario_config (scenario_room, scenario_adapter))) = Map.empty \<and>
   0 < max_attempts scenario_config \<and>
   failures_left scenario_adapter div max_attempts scenario_config
     \<le> count_list [Flush, Mutate ''b''] Flush \<and>
   doc (fst (run id append_update scenario_config ([Flush, Mutate ''b''] @ [Flush])
              (scenario_room, scenario_adapter))) = ''ab'' \<and>
   durable (snd (run id append_update scenario_config ([Flush, Mutate ''b''] @ [Flush])
              (scenario_room, scenario_adapter))) ''doc1'' = Some ''ab''"
  using transient_store_failure_loses_no_update
          [of id scenario_config scenario_room scenario_adapter append_update "''b''"
              "[Flush, Mutate ''b'']"]
  by (simp add: scenario_config_def scenario_room_def scenario_adapter_def append_update_def
      del: run.simps)

text \<open>
  With three attempts per flush the first flush gets through on its third attempt, after
  waiting the base delay and twice the base delay.
\<close>

lemma scenario_fails_twice_then_succeeds:
  "fst (store_retry 3 100 ''doc1'' ''a'' scenario_adapter) = Inr ()"
  "fst (snd (store_retry 3 100 ''doc1'' ''a'' scenario_adapter)) = [100, 200]"
  "durable (snd (snd (store_retry 3 100 ''doc1'' ''a'' scenario_adapter))) ''doc1'' = Some ''a''"
  by (simp_all add: scenario_adapter_def store_def eval_nat_numeral)


text \<open>The same scenario, computed step by step rather than through the theorem.\<close>

lemma scenario_run:
  "fst (run id append_update scenario_config [Flush, Mutate ''b'', Flush]
          (scenario_room, scenario_adapter))
     = \<lparr>room_key = ''doc1'', doc = ''ab'', dirty = False, sink = [PERSISTENCE_FAILURE]\<rparr>"
  "durable (snd (run id append_update scenario_config [Flush, Mutate ''b'', Flush]
          (scenario_room, scenario_adapter))) ''doc1'' = Some ''ab''"
  "durable (snd (run id append_update scenario_config [Flush, Mutate ''b'']
          (scenario_room, scenario_adapter))) ''doc1'' = None"
  by (simp_all add: scenario_config_def scenario_room_def scenario_adapter_def append_update_def
      flush_def store_def room_merge_def eval_nat_numeral)

section \<open>Properties of the flush scheduler\<close>

text \<open>A run only adds to the firings suppressed and to the writes begun.\<close>

lemma fire_suppressed: "\<exists>r. suppressed (fire d s) = suppressed s @ r"
  by (simp add: fire_def start_write_def)

lemma advance_suppressed: "\<exists>r. suppressed (advance t s) = suppressed s @ r"
  using fire_suppressed[of _ s] by (simp add: advance_def split: option.splits)

lemma sched_step_suppressed: "\<exists>r. suppressed (sched_step cfg ev s) = suppressed s @ r"
  using advance_suppressed[of "time_of ev" s]
  by (cases ev) (auto simp add: on_update_def on_completed_def start_write_def Let_def)



lemma sched_step_unsuppressed:
  "suppressed (sched_step cfg ev s) = [] \<Longrightarrow> suppressed s = []"
  using sched_step_suppressed[of cfg ev s] by auto

lemma advance_unsuppressed:
  "suppressed (advance t s) = [] \<Longrightarrow> suppressed s = []"
  using advance_suppressed[of t s] by auto






text \<open>Every step keeps a trailing flush tied to a suppressed firing.\<close>

lemma advance_settled: "settled s \<Longrightarrow> settled (advance t s)"
  by (auto simp add: settled_def advance_def fire_def start_write_def split: option.splits)

lemma sched_step_settled: "settled s \<Longrightarrow> settled (sched_step cfg ev s)"
  using advance_settled[of s "time_of ev"]
  by (cases ev) (auto simp add: settled_def on_update_def on_completed_def start_write_def Let_def)

lemma sched_run_settled: "settled s \<Longrightarrow> settled (sched_run cfg evs s)"
  by (induction evs arbitrary: s) (simp_all add: sched_step_settled)

















lemma update_writes: "writes (on_update cfg t s) = writes (advance t s)"
  by (simp add: on_update_def Let_def)


















text \<open>The definitions a run of the scheduler unfolds to.\<close>

lemmas sched_eval =
  debounce_config_def idle_scheduler_def on_update_def on_completed_def advance_def due_def fire_def
  start_write_def



text \<open>The write for that update begins when the write in flight completes, here at 30.\<close>

lemma deferred_write_comes_late:
  "writes (sched_run debounce_config ([Applied 0, Tick 3] @ Applied 4 # [Tick 7] @ [Tick 14] @ [Completed 30])
     idle_scheduler) = [3, 30]"
  by (simp add: sched_eval)

end
